theory Spec2Isabelle
  imports Complex_Main "HOL-Library.Sublist"
begin

section \<open>Python strings\<close>

text \<open>
  A Python \<open>str\<close> is a sequence of Unicode code points, and \<open>len\<close> counts code points
  (the ellipsis U+2026 and the pound sign U+00A3 are one character each). A string is
  therefore a list of code points; \<open>ascii\<close> embeds an ASCII literal.
\<close>

type_synonym ustr = "nat list"

definition ascii :: "string \<Rightarrow> ustr" where
  "ascii s = map of_char s"

text \<open>
  The part of the Unicode character database that the scripts consult through \<open>re\<close>
  and \<open>str.lower\<close> and that is not fixed here: which code points from 128 on are
  alphanumeric (\<open>str.isalnum\<close>, the non-underscore part of \<open>\w\<close>), and how
  \<open>str.lower\<close> rewrites a code point from 128 on (given the text before and after it,
  since the lowering of a final sigma looks at its context), and which code points from 128
  on are decimal digits, with their values (for \<open>float\<close>). On ASCII all three are
  fixed below, as CPython does.
\<close>

record unicode_db =
  uc_alnum :: "nat \<Rightarrow> bool"
  uc_lower :: "ustr \<Rightarrow> nat \<Rightarrow> ustr \<Rightarrow> ustr"
  uc_decimal :: "nat \<Rightarrow> nat option"

text \<open>The database cut off after the Latin-1 supplement (U+0080 to U+00FF), for
  evaluating examples: its letters and digits, and the capital letters that
  \<open>lower\<close> moves by 32. Code points from 256 on are left alone.\<close>

definition latin1_db :: unicode_db where
  "latin1_db = \<lparr>
     uc_alnum = (\<lambda>c. c \<in> {170, 178, 179, 181, 185, 186} \<or> (188 \<le> c \<and> c \<le> 190)
        \<or> (192 \<le> c \<and> c \<le> 214) \<or> (216 \<le> c \<and> c \<le> 246) \<or> (248 \<le> c \<and> c \<le> 255)),
     uc_lower = (\<lambda>passed c rest.
        if (192 \<le> c \<and> c \<le> 214) \<or> (216 \<le> c \<and> c \<le> 222) then [c + 32] else [c]),
     uc_decimal = (\<lambda>c. None) \<rparr>"

definition is_ascii_digit :: "nat \<Rightarrow> bool" where
  "is_ascii_digit c = (48 \<le> c \<and> c \<le> 57)"

definition is_ascii_upper :: "nat \<Rightarrow> bool" where
  "is_ascii_upper c = (65 \<le> c \<and> c \<le> 90)"

definition is_ascii_lower :: "nat \<Rightarrow> bool" where
  "is_ascii_lower c = (97 \<le> c \<and> c \<le> 122)"

definition ascii_lower :: "nat \<Rightarrow> nat" where
  "ascii_lower c = (if is_ascii_upper c then c + 32 else c)"

text \<open>\<open>str.isspace\<close>, which is also \<open>\s\<close> of a \<open>str\<close> pattern and what \<open>strip()\<close>
  and \<open>split()\<close> without arguments remove: CPython's fixed whitespace table.\<close>

definition is_space :: "nat \<Rightarrow> bool" where
  "is_space c = ((9 \<le> c \<and> c \<le> 13) \<or> (28 \<le> c \<and> c \<le> 32) \<or> c = 133 \<or> c = 160
     \<or> c = 5760 \<or> (8192 \<le> c \<and> c \<le> 8202) \<or> c = 8232 \<or> c = 8233 \<or> c = 8239
     \<or> c = 8287 \<or> c = 12288)"

text \<open>\<open>\w\<close> of a \<open>str\<close> pattern: alphanumeric or the underscore.\<close>

definition is_word :: "unicode_db \<Rightarrow> nat \<Rightarrow> bool" where
  "is_word db c = (if c < 128
     then is_ascii_digit c \<or> is_ascii_upper c \<or> is_ascii_lower c \<or> c = 95
     else uc_alnum db c)"

text \<open>\<open>s.lower()\<close>, code point by code point, with the text already passed.\<close>

fun lower_from :: "unicode_db \<Rightarrow> ustr \<Rightarrow> ustr \<Rightarrow> ustr" where
  "lower_from db passed [] = []"
| "lower_from db passed (c # cs) =
     (if c < 128 then [ascii_lower c] else uc_lower db passed c cs)
       @ lower_from db (passed @ [c]) cs"

definition py_lower :: "unicode_db \<Rightarrow> ustr \<Rightarrow> ustr" where
  "py_lower db s = lower_from db [] s"

text \<open>\<open>s.lstrip(chars)\<close>, \<open>s.rstrip(chars)\<close> and \<open>s.strip(chars)\<close> for a set of
  characters given as a predicate; \<open>py_strip\<close> is \<open>s.strip()\<close>.\<close>

definition lstrip_where :: "(nat \<Rightarrow> bool) \<Rightarrow> ustr \<Rightarrow> ustr" where
  "lstrip_where P s = dropWhile P s"

definition rstrip_where :: "(nat \<Rightarrow> bool) \<Rightarrow> ustr \<Rightarrow> ustr" where
  "rstrip_where P s = rev (dropWhile P (rev s))"

definition strip_where :: "(nat \<Rightarrow> bool) \<Rightarrow> ustr \<Rightarrow> ustr" where
  "strip_where P s = rstrip_where P (lstrip_where P s)"

definition py_strip :: "ustr \<Rightarrow> ustr" where
  "py_strip s = strip_where is_space s"

text \<open>\<open>sep.join(xs)\<close>.\<close>

fun join :: "ustr \<Rightarrow> ustr list \<Rightarrow> ustr" where
  "join sep [] = []"
| "join sep [x] = x"
| "join sep (x # y # ys) = x @ sep @ join sep (y # ys)"

text \<open>\<open>xs[:n]\<close> for a Python integer \<open>n\<close>: a negative \<open>n\<close> counts from the end.\<close>

definition py_take :: "int \<Rightarrow> 'a list \<Rightarrow> 'a list" where
  "py_take n xs = (if 0 \<le> n then take (nat n) xs else take (length xs - nat (- n)) xs)"

text \<open>\<open>re.findall\<close> of a pattern \<open>[class]+\<close>: scanning from the left, each maximal run
  of characters of the class is one match.\<close>

function findall_class :: "(nat \<Rightarrow> bool) \<Rightarrow> ustr \<Rightarrow> ustr list" where
  "findall_class P [] = []"
| "findall_class P (c # cs) =
     (if P c then takeWhile P (c # cs) # findall_class P (dropWhile P cs)
      else findall_class P cs)"
  by pat_completeness auto
termination
  by (relation "measure (\<lambda>(P, s). length s)")
     (auto simp: length_dropWhile_le less_Suc_eq_le)

text \<open>\<open>re.sub\<close> of a pattern \<open>[class]+\<close> by one character \<open>r\<close>: each maximal run of
  characters of the class is replaced by \<open>r\<close>. For \<open>-{2,}\<close> replaced by a dash this is
  the same function, a run of one dash being replaced by itself.\<close>

function sub_runs :: "(nat \<Rightarrow> bool) \<Rightarrow> nat \<Rightarrow> ustr \<Rightarrow> ustr" where
  "sub_runs P r [] = []"
| "sub_runs P r (c # cs) =
     (if P c then r # sub_runs P r (dropWhile P cs) else c # sub_runs P r cs)"
  by pat_completeness auto
termination
  by (relation "measure (\<lambda>(P, r, s). length s)")
     (auto simp: length_dropWhile_le less_Suc_eq_le)

text \<open>\<open>s.split(sep)\<close> for a separator of one character: the pieces between the
  separators, empty pieces included; the empty string gives one empty piece.\<close>

fun split_on :: "nat \<Rightarrow> ustr \<Rightarrow> ustr list" where
  "split_on sep [] = [[]]"
| "split_on sep (c # cs) =
     (if c = sep then [] # split_on sep cs
      else (case split_on sep cs of
              [] \<Rightarrow> [[c]]
            | w # ws \<Rightarrow> (c # w) # ws))"

section \<open>download\_images\_by\_product.py: slugs\<close>

definition is_dash :: "nat \<Rightarrow> bool" where
  "is_dash c = (c = 45)"

text \<open>\<open>short_title_slug\<close> up to its last line: the value of \<open>slug\<close> before
  \<open>slug or "product"\<close>. The steps are those of the source, in its order.\<close>

definition slug_steps :: "unicode_db \<Rightarrow> ustr \<Rightarrow> int \<Rightarrow> int \<Rightarrow> ustr" where
  "slug_steps db title max_words max_len =
     (let title1 = py_strip title;
          title2 = filter (\<lambda>c. is_word db c \<or> is_space c \<or> is_dash c) title1;
          title3 = py_strip (sub_runs is_space 32 title2);
          words = py_take max_words (split_on 32 title3);
          slug1 = py_lower db (join (ascii ''-'') words);
          slug2 = strip_where is_dash (sub_runs is_dash 45 slug1)
      in rstrip_where is_dash (py_take max_len slug2))"

definition short_title_slug :: "unicode_db \<Rightarrow> ustr \<Rightarrow> int \<Rightarrow> int \<Rightarrow> ustr" where
  "short_title_slug db title max_words max_len =
     (let slug = slug_steps db title max_words max_len
      in if slug = [] then ascii ''product'' else slug)"

section \<open>download\_images\_by\_product.py: folders\<close>

text \<open>\<open>str(n)\<close> for a natural number \<open>n\<close>: its decimal digits.\<close>

function py_str_nat :: "nat \<Rightarrow> ustr" where
  "py_str_nat n = (if n < 10 then [48 + n] else py_str_nat (n div 10) @ [48 + n mod 10])"
  by pat_completeness auto
termination
  by (relation "measure id") auto

declare py_str_nat.simps [simp del]

text \<open>
  A path is the list of its components (\<open>Path.parts\<close>), so \<open>root / name\<close> for a name
  of one component, as every slug and every file name of the script is, appends the name;
  \<open>p.parent\<close> is \<open>butlast p\<close> and \<open>p.name\<close> is \<open>last p\<close>. The file system is the
  finite list of its entries, a later entry for the same path being shadowed by an
  earlier one. A written image file holds the canvas it encodes and the quality.
\<close>

type_synonym path = "ustr list"

record image =
  width :: nat
  height :: nat

record canvas =
  canvas_size :: "nat \<times> nat"
  fill :: "nat \<times> nat \<times> nat"
  pastes :: "(image \<times> int \<times> int) list"

datatype node = Dir | Webp canvas nat | Other_file

type_synonym filesystem = "(path \<times> node) list"

definition path_exists :: "filesystem \<Rightarrow> path \<Rightarrow> bool" where
  "path_exists fs p = (map_of fs p \<noteq> None)"

text \<open>The measure under which the probing loop of \<open>ensure_unique_folder\<close> ends: the
  numbered candidates still ahead that exist, counted twice, plus one while the current
  candidate exists.\<close>

definition probe_measure :: "filesystem \<times> path \<times> ustr \<times> nat \<times> path \<Rightarrow> nat" where
  "probe_measure = (\<lambda>(fs, root_dir, base_slug, attempt, candidate).
     2 * card {k. attempt < k \<and>
                 path_exists fs (root_dir @ [base_slug @ ascii ''-'' @ py_str_nat k])}
       + (if path_exists fs candidate then 1 else 0))"

text \<open>The \<open>while candidate.exists()\<close> loop on its variables \<open>attempt\<close> and
  \<open>candidate\<close> (\<open>root\<close> is written \<open>root_dir\<close>).\<close>

function probe_folder :: "filesystem \<Rightarrow> path \<Rightarrow> ustr \<Rightarrow> nat \<Rightarrow> path \<Rightarrow> path" where
  "probe_folder fs root_dir base_slug attempt candidate =
     (if path_exists fs candidate
      then probe_folder fs root_dir base_slug (attempt + 1)
             (root_dir @ [base_slug @ ascii ''-'' @ py_str_nat (attempt + 1)])
      else candidate)"
  by pat_completeness auto
termination
proof (relation "measure probe_measure")
  show "wf (measure probe_measure)" by simp
next
  fix fs :: filesystem and root_dir :: path and base_slug :: ustr and attempt :: nat
    and candidate :: path
  assume ex: "path_exists fs candidate"
  let ?c = "\<lambda>k. root_dir @ [base_slug @ ascii ''-'' @ py_str_nat k]"
  let ?A = "{k. attempt < k \<and> path_exists fs (?c k)}"
  let ?B = "{k. attempt + 1 < k \<and> path_exists fs (?c k)}"
  have value_of: "foldl (\<lambda>a d. 10 * a + (d - 48)) 0 (py_str_nat n) = n" for n
  proof (induction n rule: py_str_nat.induct)
    case (1 n)
    show ?case
    proof (cases "n < 10")
      case True
      then show ?thesis by (simp add: py_str_nat.simps[of n])
    next
      case False
      then show ?thesis using 1 by (simp add: py_str_nat.simps[of n])
    qed
  qed
  have inj: "inj ?c"
  proof (rule injI)
    fix m n assume "?c m = ?c n"
    then have "py_str_nat m = py_str_nat n" by simp
    then have "foldl (\<lambda>a d. 10 * a + (d - 48)) 0 (py_str_nat m) =
        foldl (\<lambda>a d. 10 * a + (d - 48)) 0 (py_str_nat n)"
      by (rule arg_cong)
    then show "m = n" by (simp only: value_of)
  qed
  have "?A \<subseteq> ?c -` (fst ` set fs)"
  proof
    fix k assume "k \<in> ?A"
    then have "map_of fs (?c k) \<noteq> None" by (simp add: path_exists_def)
    then have "?c k \<in> fst ` set fs" by (simp add: map_of_eq_None_iff)
    then show "k \<in> ?c -` (fst ` set fs)" by (rule vimageI2)
  qed
  moreover have "finite (?c -` (fst ` set fs))"
    using inj by (intro finite_vimageI) simp_all
  ultimately have fin: "finite ?A" by (rule finite_subset)
  have sub: "?B \<subseteq> ?A" by auto
  have "2 * card ?B + (if path_exists fs (?c (attempt + 1)) then 1 else 0) < 2 * card ?A + 1"
  proof (cases "path_exists fs (?c (attempt + 1))")
    case True
    then have "attempt + 1 \<in> ?A" "attempt + 1 \<notin> ?B" by simp_all
    then have "?B \<noteq> ?A" by (metis (no_types, lifting))
    then have "?B \<subset> ?A" using sub by (rule psubsetI[rotated])
    then have "card ?B < card ?A" using fin by (rule psubset_card_mono[rotated])
    then show ?thesis using True by simp
  next
    case False
    have "card ?B \<le> card ?A" using fin sub by (rule card_mono)
    then show ?thesis using False by simp
  qed
  then show "((fs, root_dir, base_slug, attempt + 1, ?c (attempt + 1)),
      (fs, root_dir, base_slug, attempt, candidate)) \<in> measure probe_measure"
    using ex unfolding probe_measure_def by simp
qed

declare probe_folder.simps [simp del]

definition ensure_unique_folder :: "filesystem \<Rightarrow> path \<Rightarrow> ustr \<Rightarrow> path" where
  "ensure_unique_folder fs root_dir base_slug =
     probe_folder fs root_dir base_slug 1 (root_dir @ [base_slug])"

section \<open>Python numbers\<close>

text \<open>
  A Python \<open>float\<close> is an IEEE 754 binary64 value: a finite value is kept as its sign
  and its exact magnitude, a rational number. \<open>float(s)\<close> and the conversion of an
  \<open>int\<close> round to the nearest binary64 value, ties to even; \<open>format(x, ".2f")\<close> rounds
  the exact binary value to two decimals, ties to even.
\<close>

datatype pyfloat = Finite bool rat | Infinite bool | NaN

definition pow2 :: "int \<Rightarrow> rat" where
  "pow2 e = (if 0 \<le> e then 2 ^ nat e else 1 / 2 ^ nat (- e))"

definition pow10 :: "int \<Rightarrow> rat" where
  "pow10 e = (if 0 \<le> e then 10 ^ nat e else 1 / 10 ^ nat (- e))"

function bit_length :: "nat \<Rightarrow> nat" where
  "bit_length n = (if n = 0 then 0 else Suc (bit_length (n div 2)))"
  by pat_completeness auto
termination
  by (relation "measure id") auto

declare bit_length.simps [simp del]

definition round_half_even :: "rat \<Rightarrow> int" where
  "round_half_even r =
     (let f = \<lfloor>r\<rfloor>; frac = r - rat_of_int f in
      if frac < 1 / 2 then f
      else if 1 / 2 < frac then f + 1
      else if even f then f else f + 1)"

text \<open>The exponent of a positive rational \<open>q\<close>: the \<open>e\<close> with \<open>2^e \<le> q < 2^(e+1)\<close>.\<close>

definition floor_log2 :: "rat \<Rightarrow> int" where
  "floor_log2 q =
     (if 1 \<le> q then int (bit_length (nat \<lfloor>q\<rfloor>)) - 1
      else - int (bit_length (nat (\<lceil>1 / q\<rceil> - 1))))"

text \<open>The binary64 value nearest to a rational \<open>q \<ge> 0\<close>, ties to even, or \<open>None\<close>
  when it is out of range: 53 significant bits, or a multiple of \<open>2^-1074\<close> below
  \<open>2^-1022\<close>. Every arithmetic operation on floats is the exact operation followed by
  this rounding.\<close>

definition round_binary64 :: "rat \<Rightarrow> rat option" where
  "round_binary64 q =
     (if q = 0 then Some 0
      else
        let ulp = pow2 (max (floor_log2 q - 52) (- 1074));
            r = rat_of_int (round_half_even (q / ulp)) * ulp
        in if pow2 1024 \<le> r then None else Some r)"

text \<open>\<open>format(x, ".2f")\<close>.\<close>

definition format_2f :: "pyfloat \<Rightarrow> ustr" where
  "format_2f x =
     (case x of
        NaN \<Rightarrow> ascii ''nan''
      | Infinite neg \<Rightarrow> (if neg then ascii ''-inf'' else ascii ''inf'')
      | Finite neg q \<Rightarrow>
          let cents = nat (round_half_even (q * 100)) in
          (if neg then ascii ''-'' else []) @ py_str_nat (cents div 100)
            @ ascii ''.'' @ [48 + cents mod 100 div 10, 48 + cents mod 10])"

text \<open>The conversion of an \<open>int\<close> to \<open>float\<close>; \<open>None\<close> is \<open>OverflowError\<close>.\<close>

definition float_of_int :: "int \<Rightarrow> pyfloat option" where
  "float_of_int i = map_option (Finite (i < 0)) (round_binary64 (rat_of_int \<bar>i\<bar>))"

text \<open>
  \<open>float(s)\<close> for a string, \<open>None\<close> being \<open>ValueError\<close>. As CPython does: code points
  from 128 on become a space (whitespace), their digit (decimal digits) or \<open>?\<close>;
  underscores must stand between two digits and are dropped; whitespace is stripped; what
  is left is \<open>inf\<close>, \<open>infinity\<close> or \<open>nan\<close> in any case, or digits with an optional
  point and an optional exponent, after an optional sign.
\<close>

definition to_ascii :: "(nat \<Rightarrow> nat option) \<Rightarrow> nat \<Rightarrow> nat" where
  "to_ascii decimal c =
     (if c < 128 then c else if is_space c then 32
      else (case decimal c of Some d \<Rightarrow> 48 + d | None \<Rightarrow> 63))"

fun underscores_ok :: "nat \<Rightarrow> ustr \<Rightarrow> bool" where
  "underscores_ok prev [] = (prev \<noteq> 95)"
| "underscores_ok prev (c # cs) =
     ((if c = 95 then is_ascii_digit prev else if prev = 95 then is_ascii_digit c else True)
      \<and> underscores_ok c cs)"

definition is_ctype_space :: "nat \<Rightarrow> bool" where
  "is_ctype_space c = ((9 \<le> c \<and> c \<le> 13) \<or> c = 32)"

definition digits_value :: "ustr \<Rightarrow> nat" where
  "digits_value ds = foldl (\<lambda>a d. 10 * a + (d - 48)) 0 ds"

definition split_sign :: "ustr \<Rightarrow> bool \<times> ustr" where
  "split_sign s =
     (case s of
        [] \<Rightarrow> (False, [])
      | c # cs \<Rightarrow> if c = 45 then (True, cs) else if c = 43 then (False, cs) else (False, s))"

text \<open>The exponent part: empty, or \<open>e\<close> or \<open>E\<close>, an optional sign and at least one digit.\<close>

definition parse_exponent :: "ustr \<Rightarrow> int option" where
  "parse_exponent s =
     (case s of
        [] \<Rightarrow> Some 0
      | c # cs \<Rightarrow>
          if c = 101 \<or> c = 69 then
            (let neg = fst (split_sign cs); ds = snd (split_sign cs) in
             if ds \<noteq> [] \<and> list_all is_ascii_digit ds
             then Some (if neg then - int (digits_value ds) else int (digits_value ds))
             else None)
          else None)"

definition parse_float_ascii :: "ustr \<Rightarrow> pyfloat option" where
  "parse_float_ascii s =
     (let neg = fst (split_sign s); body = snd (split_sign s);
          word = map ascii_lower body in
      if word = ascii ''inf'' \<or> word = ascii ''infinity'' then Some (Infinite neg)
      else if word = ascii ''nan'' then Some NaN
      else
        let int_part = takeWhile is_ascii_digit body;
            rest1 = dropWhile is_ascii_digit body;
            has_point = (rest1 \<noteq> [] \<and> hd rest1 = 46);
            frac_part = (if has_point then takeWhile is_ascii_digit (tl rest1) else []);
            rest2 = (if has_point then dropWhile is_ascii_digit (tl rest1) else rest1)
        in if int_part = [] \<and> frac_part = [] then None
           else
             (case parse_exponent rest2 of
                None \<Rightarrow> None
              | Some ex \<Rightarrow>
                  let mantissa = digits_value (int_part @ frac_part);
                      e10 = ex - int (length frac_part)
                  in (case round_binary64 (rat_of_nat mantissa * pow10 e10) of
                        None \<Rightarrow> Some (Infinite neg)
                      | Some q \<Rightarrow> Some (Finite neg q))))"

definition py_float :: "unicode_db \<Rightarrow> ustr \<Rightarrow> pyfloat option" where
  "py_float db s =
     (let a = map (to_ascii (uc_decimal db)) s in
      if \<not> underscores_ok 0 a then None
      else parse_float_ascii (strip_where is_ctype_space (filter (\<lambda>c. c \<noteq> 95) a)))"

section \<open>download\_images\_by\_product.py: images\<close>

definition TARGET_W :: nat where "TARGET_W = 800"
definition TARGET_H :: nat where "TARGET_H = 800"
definition WEBP_QUALITY :: nat where "WEBP_QUALITY = 85"

datatype error = ZeroDivisionError | DecodeError | FileExistsError | NotADirectoryError
  | IsADirectoryError | KeyError | ValueError | OverflowError | AttributeError

definition and_then :: "error + 'a \<Rightarrow> ('a \<Rightarrow> error + 'b) \<Rightarrow> error + 'b" where
  "and_then r f = (case r of Inl e \<Rightarrow> Inl e | Inr v \<Rightarrow> f v)"

text \<open>
  The float arithmetic of Pillow's size computation, on the non-negative values it meets.
  \<open>a / b\<close> on two integers is the correctly rounded quotient; it raises for \<open>b = 0\<close>
  and for a quotient out of range. \<open>y * aspect\<close> and \<open>x / aspect\<close> convert the integer
  and round the product or quotient; a result out of range is the float infinity, on which
  the \<open>math.floor\<close> that follows raises \<open>OverflowError\<close>. \<open>abs(a - b)\<close> is the rounded
  distance.
\<close>

definition int_truediv :: "nat \<Rightarrow> nat \<Rightarrow> error + rat" where
  "int_truediv a b =
     (if b = 0 then Inl ZeroDivisionError
      else (case round_binary64 (rat_of_nat a / rat_of_nat b) of
              None \<Rightarrow> Inl OverflowError
            | Some q \<Rightarrow> Inr q))"

definition int_times_float :: "nat \<Rightarrow> rat \<Rightarrow> error + rat" where
  "int_times_float y a =
     (case round_binary64 (rat_of_nat y) of
        None \<Rightarrow> Inl OverflowError
      | Some fy \<Rightarrow>
          (case round_binary64 (fy * a) of
             None \<Rightarrow> Inl OverflowError
           | Some number \<Rightarrow> Inr number))"

definition int_over_float :: "nat \<Rightarrow> rat \<Rightarrow> error + rat" where
  "int_over_float x a =
     (case round_binary64 (rat_of_nat x) of
        None \<Rightarrow> Inl OverflowError
      | Some fx \<Rightarrow>
          if a = 0 then Inl ZeroDivisionError
          else (case round_binary64 (fx / a) of
                  None \<Rightarrow> Inl OverflowError
                | Some number \<Rightarrow> Inr number))"

definition float_abs_diff :: "rat \<Rightarrow> rat \<Rightarrow> error + rat" where
  "float_abs_diff a b =
     (case round_binary64 \<bar>a - b\<bar> of
        None \<Rightarrow> Inl OverflowError
      | Some d \<Rightarrow> Inr d)"

text \<open>
  Pillow's \<open>Image.thumbnail(size, resample)\<close>, which the script calls: the size it gives
  the image (\<open>preserve_aspect_ratio\<close> with its \<open>round_aspect\<close>), the image being
  resized to it when it differs. An image is its width and height here; the resampling of
  the pixels is not modelled. \<open>round_aspect(number, key)\<close> is
  \<open>max(min(math.floor(number), math.ceil(number), key=key), 1)\<close>, and
  \<open>min(a, b, key=key)\<close> is \<open>a\<close> unless \<open>b\<close> has the smaller key.
\<close>

definition round_aspect :: "rat \<Rightarrow> (nat \<Rightarrow> error + rat) \<Rightarrow> error + nat" where
  "round_aspect number key =
     and_then (key (nat \<lfloor>number\<rfloor>)) (\<lambda>key_floor.
     and_then (key (nat \<lceil>number\<rceil>)) (\<lambda>key_ceil.
       Inr (max (if key_ceil < key_floor then nat \<lceil>number\<rceil> else nat \<lfloor>number\<rfloor>) 1)))"

definition preserve_aspect_ratio :: "image \<Rightarrow> nat \<times> nat \<Rightarrow> error + (nat \<times> nat) option" where
  "preserve_aspect_ratio img provided_size =
     (let x = fst provided_size; y = snd provided_size in
      if x \<ge> width img \<and> y \<ge> height img then Inr None
      else
        and_then (int_truediv (width img) (height img)) (\<lambda>aspect.
        and_then (int_truediv x y) (\<lambda>x_over_y.
          if x_over_y \<ge> aspect
          then
            and_then (int_times_float y aspect) (\<lambda>number.
            and_then (round_aspect number
                        (\<lambda>n. and_then (int_truediv n y) (float_abs_diff aspect))) (\<lambda>x'.
              Inr (Some (x', y))))
          else
            and_then (int_over_float x aspect) (\<lambda>number.
            and_then (round_aspect number
                        (\<lambda>n. if n = 0 then Inr 0
                             else and_then (int_truediv x n) (float_abs_diff aspect))) (\<lambda>y'.
              Inr (Some (x, y')))))))"

definition thumbnail :: "image \<Rightarrow> nat \<times> nat \<Rightarrow> error + image" where
  "thumbnail img requested =
     (case preserve_aspect_ratio img requested of
        Inl e \<Rightarrow> Inl e
      | Inr None \<Rightarrow> Inr img
      | Inr (Some final_size) \<Rightarrow>
          Inr (if (width img, height img) \<noteq> final_size
               then img\<lparr>width := fst final_size, height := snd final_size\<rparr> else img))"

text \<open>Lines 44 to 49 of \<open>to_exact_canvas_webp\<close>: the thumbnail, the white canvas, the
  offsets and the paste. \<open>//\<close> is floor division on Python integers.\<close>

definition compose_canvas :: "image \<Rightarrow> error + canvas" where
  "compose_canvas img0 =
     (case thumbnail img0 (TARGET_W, TARGET_H) of
        Inl e \<Rightarrow> Inl e
      | Inr img \<Rightarrow>
          let canvas = \<lparr>canvas_size = (TARGET_W, TARGET_H), fill = (255, 255, 255), pastes = []\<rparr>;
              x = (int TARGET_W - int (width img)) div 2;
              y = (int TARGET_H - int (height img)) div 2
          in Inr (canvas\<lparr>pastes := pastes canvas @ [(img, x, y)]\<rparr>))"

text \<open>\<open>p.mkdir(parents=True, exist_ok=True)\<close>: every missing ancestor and the path itself
  become directories; it fails when an ancestor or the path itself is a file.\<close>

fun mkdir_parents :: "filesystem \<Rightarrow> path \<Rightarrow> path \<Rightarrow> error + filesystem" where
  "mkdir_parents fs made [] = Inr fs"
| "mkdir_parents fs made (name # names) =
     (case map_of fs (made @ [name]) of
        None \<Rightarrow> mkdir_parents ((made @ [name], Dir) # fs) (made @ [name]) names
      | Some Dir \<Rightarrow> mkdir_parents fs (made @ [name]) names
      | Some _ \<Rightarrow> Inl (if names = [] then FileExistsError else NotADirectoryError))"

definition mkdir_p :: "filesystem \<Rightarrow> path \<Rightarrow> error + filesystem" where
  "mkdir_p fs p = mkdir_parents fs [] p"

text \<open>\<open>canvas.save(dest_path, "WEBP", quality=q)\<close> opens the file for writing: that
  fails on a directory (the empty path is the directory the paths start from), and
  replaces a file that is there.\<close>

definition save_webp :: "canvas \<Rightarrow> nat \<Rightarrow> path \<Rightarrow> filesystem \<Rightarrow> error + filesystem" where
  "save_webp canvas quality dest_path fs =
     (if dest_path = [] \<or> map_of fs dest_path = Some Dir then Inl IsADirectoryError
      else Inr ((dest_path, Webp canvas quality) # fs))"

text \<open>What the script gets from outside: the bytes behind a URL (\<open>download_bytes\<close>,
  \<open>None\<close> when the request raises), and the decoded RGB image of some bytes
  (\<open>Image.open(BytesIO(b)).convert("RGB")\<close>, \<open>None\<close> when it raises).\<close>

record world =
  download_bytes :: "ustr \<Rightarrow> nat list option"
  open_image :: "nat list \<Rightarrow> image option"

text \<open>\<open>to_exact_canvas_webp\<close> returns the file system as it leaves it and the exception
  it raised, if any: the folders made by \<open>mkdir\<close> stay when \<open>save\<close> fails.\<close>

definition to_exact_canvas_webp ::
  "world \<Rightarrow> nat list \<Rightarrow> path \<Rightarrow> filesystem \<Rightarrow> filesystem \<times> error option" where
  "to_exact_canvas_webp w img_bytes dest_path fs =
     (case open_image w img_bytes of
        None \<Rightarrow> (fs, Some DecodeError)
      | Some img0 \<Rightarrow>
          (case compose_canvas img0 of
             Inl e \<Rightarrow> (fs, Some e)
           | Inr canvas \<Rightarrow>
               (case mkdir_p fs (butlast dest_path) of
                  Inl e \<Rightarrow> (fs, Some e)
                | Inr fs' \<Rightarrow>
                    (case save_webp canvas WEBP_QUALITY dest_path fs' of
                       Inl e \<Rightarrow> (fs', Some e)
                     | Inr fs'' \<Rightarrow> (fs'', None)))))"

section \<open>download\_images\_by\_product.py: rows\<close>

text \<open>What the script prints, one constructor per \<open>print\<close> call of \<open>process_line\<close>.\<close>

datatype message =
    No_urls int
  | Product ustr ustr nat
  | Saved path
  | Failed ustr

record state =
  files :: filesystem
  console :: "message list"

definition print_message :: "message \<Rightarrow> state \<Rightarrow> state" where
  "print_message m st = st\<lparr>console := console st @ [m]\<rparr>"

text \<open>\<open>f"{idx:03d}"\<close>: the decimal digits, zero-padded to three characters, the sign
  counting as one of them.\<close>

definition format_03d :: "int \<Rightarrow> ustr" where
  "format_03d idx =
     (if idx < 0
      then 45 # replicate (2 - length (py_str_nat (nat (- idx)))) 48 @ py_str_nat (nat (- idx))
      else replicate (3 - length (py_str_nat (nat idx))) 48 @ py_str_nat (nat idx))"

text \<open>Lines 63 to 66: the URL part and the title of a line; a tab is code point 9.\<close>

definition split_line :: "ustr \<Rightarrow> int \<Rightarrow> ustr \<times> ustr" where
  "split_line line idx =
     (if 9 \<in> set line
      then (takeWhile (\<lambda>c. c \<noteq> 9) line, tl (dropWhile (\<lambda>c. c \<noteq> 9) line))
      else (line, ascii ''product-'' @ format_03d idx))"

text \<open>Line 71: \<open>[u.strip() for u in urls_part.split(";") if u.strip()]\<close>.\<close>

definition parse_urls :: "ustr \<Rightarrow> ustr list" where
  "parse_urls urls_part = map py_strip (filter (\<lambda>u. py_strip u \<noteq> []) (split_on 59 urls_part))"

text \<open>The \<open>for i, url in enumerate(urls, start=1)\<close> loop; its \<open>except Exception\<close>
  catches what the download and the conversion raise.\<close>

fun fetch_urls :: "world \<Rightarrow> path \<Rightarrow> nat \<Rightarrow> ustr list \<Rightarrow> state \<Rightarrow> state" where
  "fetch_urls w out_dir i [] st = st"
| "fetch_urls w out_dir i (url # urls) st =
     (let webp_path = out_dir @ [py_str_nat i @ ascii ''.webp''];
          st' = (case download_bytes w url of
                   None \<Rightarrow> print_message (Failed url) st
                 | Some img_bytes \<Rightarrow>
                     (case to_exact_canvas_webp w img_bytes webp_path (files st) of
                        (fs', Some e) \<Rightarrow> print_message (Failed url) (st\<lparr>files := fs'\<rparr>)
                      | (fs', None) \<Rightarrow> print_message (Saved webp_path) (st\<lparr>files := fs'\<rparr>)))
      in fetch_urls w out_dir (i + 1) urls st')"

definition process_line ::
  "unicode_db \<Rightarrow> world \<Rightarrow> path \<Rightarrow> ustr \<Rightarrow> int \<Rightarrow> state \<Rightarrow> error + state" where
  "process_line db w OUT_ROOT line idx st =
     (let urls_part = fst (split_line line idx);
          title = snd (split_line line idx);
          slug = short_title_slug db title 6 48;
          out_dir = ensure_unique_folder (files st) OUT_ROOT slug;
          urls = parse_urls urls_part
      in if urls = [] then Inr (print_message (No_urls idx) st)
         else
           let st1 = print_message (Product (py_strip title) (last out_dir) (length urls)) st in
           (case mkdir_p (files st1) out_dir of
              Inl e \<Rightarrow> Inl e
            | Inr fs' \<Rightarrow> Inr (fetch_urls w out_dir 1 urls (st1\<lparr>files := fs'\<rparr>))))"

text \<open>The \<open>for idx, line in enumerate(lines, start=1)\<close> loop of \<open>main\<close>, from the row
  numbered \<open>idx\<close> on; an exception of \<open>process_line\<close> ends it.\<close>

fun process_lines ::
  "unicode_db \<Rightarrow> world \<Rightarrow> path \<Rightarrow> int \<Rightarrow> ustr list \<Rightarrow> state \<Rightarrow> error + state" where
  "process_lines db w OUT_ROOT idx [] st = Inr st"
| "process_lines db w OUT_ROOT idx (line # lines) st =
     (case process_line db w OUT_ROOT line idx st of
        Inl e \<Rightarrow> Inl e
      | Inr st' \<Rightarrow> process_lines db w OUT_ROOT (idx + 1) lines st')"

section \<open>export\_product\_metadata.py: records and prices\<close>

text \<open>
  A cell of the input sheet as \<open>get_all_records\<close> gives it: a string, an integer or a
  float; \<open>record.get(key)\<close> is \<open>None\<close> for a missing column. A record and an output
  row are dictionaries, kept as association lists in insertion order. \<open>str(x)\<close> of a float
  is its shortest round-trip representation, taken as a parameter \<open>repr\<close>.
\<close>

datatype pyval = PNone | PStr ustr | PInt int | PFloat pyfloat

type_synonym record_in = "(ustr \<times> pyval) list"

type_synonym row = "(ustr \<times> ustr) list"

definition get :: "record_in \<Rightarrow> ustr \<Rightarrow> pyval \<Rightarrow> pyval" where
  "get record key fallback = (case map_of record key of None \<Rightarrow> fallback | Some v \<Rightarrow> v)"

text \<open>\<open>bool(value)\<close>: what \<open>if not value\<close> tests.\<close>

definition truthy :: "pyval \<Rightarrow> bool" where
  "truthy v =
     (case v of
        PNone \<Rightarrow> False
      | PStr s \<Rightarrow> s \<noteq> []
      | PInt i \<Rightarrow> i \<noteq> 0
      | PFloat x \<Rightarrow> (case x of Finite neg q \<Rightarrow> q \<noteq> 0 | _ \<Rightarrow> True))"

definition py_str_int :: "int \<Rightarrow> ustr" where
  "py_str_int i = (if i < 0 then 45 # py_str_nat (nat (- i)) else py_str_nat (nat i))"

definition py_str :: "(pyfloat \<Rightarrow> ustr) \<Rightarrow> pyval \<Rightarrow> ustr" where
  "py_str repr v =
     (case v of
        PNone \<Rightarrow> ascii ''None''
      | PStr s \<Rightarrow> s
      | PInt i \<Rightarrow> py_str_int i
      | PFloat x \<Rightarrow> repr x)"

definition as_str :: "(pyfloat \<Rightarrow> ustr) \<Rightarrow> pyval \<Rightarrow> ustr" where
  "as_str repr v = (if v = PNone then [] else py_str repr v)"

text \<open>The pound sign U+00A3.\<close>

definition POUND :: ustr where
  "POUND = [163]"

definition normalise_price :: "unicode_db \<Rightarrow> (pyfloat \<Rightarrow> ustr) \<Rightarrow> pyval \<Rightarrow> error + ustr" where
  "normalise_price db repr v =
     (if \<not> truthy v then Inr []
      else
        (case v of
           PInt i \<Rightarrow>
             (case float_of_int i of
                None \<Rightarrow> Inl OverflowError
              | Some x \<Rightarrow> Inr (POUND @ format_2f x))
         | PFloat x \<Rightarrow> Inr (POUND @ format_2f x)
         | _ \<Rightarrow>
             let value = py_strip (py_str repr v) in
             if value = [] then Inr []
             else if take 1 value = POUND then Inr value
             else
               (case py_float db value of
                  Some x \<Rightarrow> Inr (POUND @ format_2f x)
                | None \<Rightarrow> Inr value)))"

text \<open>\<open>a or b\<close> on results that are strings: the first one unless it is empty; an
  exception of the first ends the expression.\<close>

definition or_else :: "error + ustr \<Rightarrow> error + ustr \<Rightarrow> error + ustr" where
  "or_else a b = (case a of Inl e \<Rightarrow> Inl e | Inr s \<Rightarrow> if s \<noteq> [] then Inr s else b)"

definition best_price :: "unicode_db \<Rightarrow> (pyfloat \<Rightarrow> ustr) \<Rightarrow> record_in \<Rightarrow> error + ustr" where
  "best_price db repr record =
     or_else (normalise_price db repr (get record (ascii ''Buy Box '' @ [128666] @ ascii '': Current'') PNone))
       (or_else (normalise_price db repr (get record (ascii ''New: Current'') PNone))
          (normalise_price db repr (get record (ascii ''List Price: Current'') PNone)))"

text \<open>\<open>extract_main_image\<close>: a truthy cell that is not a string has no \<open>split\<close>.\<close>

definition extract_main_image :: "record_in \<Rightarrow> error + ustr" where
  "extract_main_image record =
     (let raw = get record (ascii ''Image'') (PStr []) in
      if \<not> truthy raw then Inr []
      else
        (case raw of
           PStr s \<Rightarrow>
             (let parts = map py_strip (filter (\<lambda>part. py_strip part \<noteq> []) (split_on 59 s))
              in Inr (if parts \<noteq> [] then hd parts else []))
         | _ \<Rightarrow> Inl AttributeError))"

section \<open>export\_product\_metadata.py: descriptions\<close>

definition compose_short_description :: "ustr \<Rightarrow> ustr \<Rightarrow> ustr \<Rightarrow> ustr \<Rightarrow> ustr" where
  "compose_short_description title brand category price =
     (let parts = [py_strip (brand @ ascii '' '' @ title),
                   py_strip (category @ ascii '' essential'')];
          parts = (if price \<noteq> [] then parts @ [ascii ''Priced at '' @ price] else parts)
      in join (ascii '' | '') (filter (\<lambda>part. part \<noteq> []) parts))"

definition compose_long_description ::
  "unicode_db \<Rightarrow> ustr \<Rightarrow> ustr \<Rightarrow> ustr \<Rightarrow> ustr \<Rightarrow> ustr \<Rightarrow> ustr" where
  "compose_long_description db title brand category rating asin =
     (let lines = [ascii ''Experience '' @ title @ ascii '' from '' @ brand @ [8212]
                     @ ascii ''a trusted '' @ py_lower db category @ ascii '' favourite.''];
          lines = (if rating \<noteq> []
                   then lines @ [ascii ''Customers rate it '' @ rating
                                   @ ascii '' out of 5 for quality and results.'']
                   else lines);
          lines = lines @ [ascii ''Perfect for Amazon FBA listings with reliable performance data.''];
          lines = (if asin \<noteq> [] then lines @ [ascii ''ASIN: '' @ asin] else lines)
      in join (ascii '' '') lines)"

section \<open>export\_product\_metadata.py: keywords\<close>

definition STOP_WORDS :: "ustr set" where
  "STOP_WORDS = set (map ascii
     [''the'', ''and'', ''with'', ''for'', ''from'', ''into'', ''your'', ''this'', ''that'',
      ''a'', ''an'', ''of'', ''to'', ''on'', ''ml'', ''pack'', ''set''])"

text \<open>The character class \<open>[A-Za-z0-9']\<close> of the token pattern.\<close>

definition is_token_char :: "nat \<Rightarrow> bool" where
  "is_token_char c = (is_ascii_upper c \<or> is_ascii_lower c \<or> is_ascii_digit c \<or> c = 39)"

text \<open>The \<open>for token in tokens\<close> loop of \<open>build_keywords\<close>, on its two variables
  \<open>keywords\<close> and \<open>seen\<close>.\<close>

fun keywords_loop ::
  "unicode_db \<Rightarrow> ustr list \<Rightarrow> ustr list \<times> ustr set \<Rightarrow> ustr list \<times> ustr set" where
  "keywords_loop db [] (keywords, seen) = (keywords, seen)"
| "keywords_loop db (token # tokens) (keywords, seen) =
     (let normalised = py_lower db token in
      if normalised \<in> STOP_WORDS \<or> length normalised \<le> 2
        then keywords_loop db tokens (keywords, seen)
      else if normalised \<notin> seen
        then keywords_loop db tokens (keywords @ [normalised], insert normalised seen)
      else keywords_loop db tokens (keywords, seen))"

text \<open>\<open>tokens\<close>, and \<open>keywords[:15]\<close> after the loop.\<close>

definition keyword_tokens :: "ustr \<Rightarrow> ustr \<Rightarrow> ustr \<Rightarrow> ustr list" where
  "keyword_tokens title brand category =
     findall_class is_token_char (brand @ ascii '' '' @ title @ ascii '' '' @ category)"

definition keyword_list :: "unicode_db \<Rightarrow> ustr \<Rightarrow> ustr \<Rightarrow> ustr \<Rightarrow> ustr list" where
  "keyword_list db title brand category =
     py_take 15 (fst (keywords_loop db (keyword_tokens title brand category) ([], {})))"

definition build_keywords :: "unicode_db \<Rightarrow> ustr \<Rightarrow> ustr \<Rightarrow> ustr \<Rightarrow> ustr" where
  "build_keywords db title brand category =
     join (ascii '', '') (keyword_list db title brand category)"

section \<open>export\_product\_metadata.py: trimming\<close>

text \<open>\<open>s.split()\<close>: the maximal runs of characters that are not whitespace.\<close>

definition py_split :: "ustr \<Rightarrow> ustr list" where
  "py_split s = findall_class (\<lambda>c. \<not> is_space c) s"

text \<open>The ellipsis marker U+2026, and the characters of \<open>rstrip(",.;:-")\<close>.\<close>

definition ELLIPSIS :: ustr where
  "ELLIPSIS = [8230]"

definition is_trim_punct :: "nat \<Rightarrow> bool" where
  "is_trim_punct c = (c \<in> set (ascii '',.;:-''))"

text \<open>The \<open>for word in words\<close> loop of \<open>trim_to_length\<close> on its variables \<open>trimmed\<close>
  and \<open>total\<close> (here \<open>total_len\<close>); the \<open>break\<close> leaves the loop with what was kept so far.\<close>

fun trim_loop :: "int \<Rightarrow> ustr list \<Rightarrow> ustr list \<Rightarrow> int \<Rightarrow> ustr list" where
  "trim_loop limit [] trimmed total_len = trimmed"
| "trim_loop limit (word # words) trimmed total_len =
     (let extra = (if trimmed = [] then int (length word) else int (length word) + 1) in
      if total_len + extra > limit - 1 then trimmed
      else trim_loop limit words (trimmed @ [word]) (total_len + extra))"

definition trim_to_length :: "ustr \<Rightarrow> int \<Rightarrow> ustr" where
  "trim_to_length text limit =
     (let text = py_strip text in
      if int (length text) \<le> limit then text
      else rstrip_where is_trim_punct
             (join (ascii '' '') (trim_loop limit (py_split text) [] 0)) @ ELLIPSIS)"

section \<open>export\_product\_metadata.py: gender\<close>

definition GENDER_KEYWORDS :: "(ustr \<times> ustr) list" where
  "GENDER_KEYWORDS = map (\<lambda>(token, gender). (ascii token, ascii gender))
     [(''women'', ''Women''), (''woman'', ''Women''), (''ladies'', ''Women''),
      (''female'', ''Women''), (''girls'', ''Women''), (''men'', ''Men''),
      (''man's'', ''Men''), (''male'', ''Men''), (''boys'', ''Men''),
      (''kids'', ''Unisex''), (''children'', ''Unisex''), (''unisex'', ''Unisex'')]"

text \<open>\<open>\b\<close> at position \<open>i\<close> of \<open>s\<close> (between \<open>s[i-1]\<close> and \<open>s[i]\<close>): exactly one
  of the two neighbours is a word character, a missing neighbour counting as none.\<close>

definition word_boundary :: "unicode_db \<Rightarrow> ustr \<Rightarrow> nat \<Rightarrow> bool" where
  "word_boundary db s i =
     ((0 < i \<and> i \<le> length s \<and> is_word db (s ! (i - 1))) \<noteq> (i < length s \<and> is_word db (s ! i)))"

text \<open>\<open>re.search(rf"\b{re.escape(token)}\b", s)\<close> as a truth value: at some position the
  text reads \<open>token\<close>, with a \<open>\b\<close> before and after it.\<close>

definition search_whole_word :: "unicode_db \<Rightarrow> ustr \<Rightarrow> ustr \<Rightarrow> bool" where
  "search_whole_word db token s =
     list_ex (\<lambda>i. i + length token \<le> length s \<and> take (length token) (drop i s) = token
                \<and> word_boundary db s i \<and> word_boundary db s (i + length token))
       [0..<Suc (length s)]"

text \<open>The \<open>for token, gender in GENDER_KEYWORDS\<close> loop with its \<open>return\<close>, and the
  \<open>return "Unisex"\<close> after it.\<close>

fun first_gender :: "unicode_db \<Rightarrow> ustr \<Rightarrow> (ustr \<times> ustr) list \<Rightarrow> ustr" where
  "first_gender db lower [] = ascii ''Unisex''"
| "first_gender db lower ((token, gender) # rest) =
     (if search_whole_word db token lower then gender else first_gender db lower rest)"

definition detect_gender :: "unicode_db \<Rightarrow> ustr \<Rightarrow> ustr" where
  "detect_gender db title = first_gender db (py_lower db title) GENDER_KEYWORDS"

text \<open>What "matching whole words only" says: the keyword stands in the text with no word
  character next to it on either side.\<close>

definition whole_word_in :: "unicode_db \<Rightarrow> ustr \<Rightarrow> ustr \<Rightarrow> bool" where
  "whole_word_in db token s =
     (\<exists>pre post. s = pre @ token @ post
        \<and> (pre = [] \<or> \<not> is_word db (last pre)) \<and> (post = [] \<or> \<not> is_word db (hd post)))"

section \<open>export\_product\_metadata.py: rows\<close>

text \<open>The body of the \<open>for record in records\<close> loop of \<open>build_rows\<close>: \<open>None\<close> for a
  record it skips, the row it appends otherwise.\<close>

definition build_row ::
  "unicode_db \<Rightarrow> (pyfloat \<Rightarrow> ustr) \<Rightarrow> record_in \<Rightarrow> error + row option" where
  "build_row db repr record =
     (let title = py_strip (as_str repr (get record (ascii ''Title'') (PStr []))) in
      if title = [] then Inr None
      else
        let brand0 = py_strip (as_str repr (get record (ascii ''Brand'') (PStr [])));
            brand = (if brand0 \<noteq> [] then brand0 else ascii ''Unknown'');
            category0 = py_strip (as_str repr (get record (ascii ''Categories: Root'') (PStr [])));
            category = (if category0 \<noteq> [] then category0 else ascii ''General'')
        in
        (case best_price db repr record of
           Inl e \<Rightarrow> Inl e
         | Inr price \<Rightarrow>
             let rating = py_strip (as_str repr (get record (ascii ''Reviews: Rating'') (PStr [])));
                 asin = py_strip (as_str repr (get record (ascii ''ASIN'') (PStr [])));
                 slug = short_title_slug db title 6 48
             in
             (case extract_main_image record of
                Inl e \<Rightarrow> Inl e
              | Inr main_image_url \<Rightarrow>
                  Inr (Some
                    [(ascii ''Product Title'', title),
                     (ascii ''SEO Title (<=60)'', trim_to_length title 60),
                     (ascii ''Meta Description (<=160)'',
                        trim_to_length
                          (ascii ''Shop '' @ title @ ascii '' by '' @ brand
                             @ ascii '', a standout in '' @ py_lower db category
                             @ ascii '' on Amazon. ''
                             @ ascii ''Great choice for FBA sellers seeking steady demand.'')
                          160),
                     (ascii ''Short Description'',
                        compose_short_description title brand category price),
                     (ascii ''Long Description'',
                        compose_long_description db title brand category rating asin),
                     (ascii ''Keywords'', build_keywords db title brand category),
                     (ascii ''Category (Suggested)'', category),
                     (ascii ''Target Gender'', detect_gender db title),
                     (ascii ''Brand'', brand),
                     (ascii ''Image Folder'', ascii ''images/'' @ slug),
                     (ascii ''Main Image File'', ascii ''1.webp''),
                     (ascii ''Price'', price),
                     (ascii ''Main Image Source'', main_image_url)]))))"

fun build_rows_loop ::
  "unicode_db \<Rightarrow> (pyfloat \<Rightarrow> ustr) \<Rightarrow> record_in list \<Rightarrow> row list \<Rightarrow> error + row list" where
  "build_rows_loop db repr [] rows = Inr rows"
| "build_rows_loop db repr (record # records) rows =
     (case build_row db repr record of
        Inl e \<Rightarrow> Inl e
      | Inr None \<Rightarrow> build_rows_loop db repr records rows
      | Inr (Some row) \<Rightarrow> build_rows_loop db repr records (rows @ [row]))"

definition build_rows ::
  "unicode_db \<Rightarrow> (pyfloat \<Rightarrow> ustr) \<Rightarrow> record_in list \<Rightarrow> error + row list" where
  "build_rows db repr records = build_rows_loop db repr records []"

section \<open>export\_product\_metadata.py: the sheet\<close>

text \<open>
  The destination spreadsheet: its worksheets by title, each with its grid size and its
  values by row. \<open>worksheet(title)\<close> raises \<open>WorksheetNotFound\<close> for a missing title;
  \<open>clear()\<close> removes all values, \<open>resize\<close> sets the grid size, and
  \<open>update("A1", data)\<close> writes \<open>data\<close> from the top-left cell on, over what is there.
\<close>

record worksheet =
  ws_rows :: nat
  ws_cols :: nat
  ws_values :: "ustr list list"

type_synonym spreadsheet = "ustr \<rightharpoonup> worksheet"

definition OUTPUT_WORKSHEET_NAME :: ustr where
  "OUTPUT_WORKSHEET_NAME = ascii ''Product Metadata''"

fun write_row :: "ustr list \<Rightarrow> ustr list \<Rightarrow> ustr list" where
  "write_row [] old = old"
| "write_row (v # vs) [] = v # write_row vs []"
| "write_row (v # vs) (old_v # old) = v # write_row vs old"

fun update_A1 :: "ustr list list \<Rightarrow> ustr list list \<Rightarrow> ustr list list" where
  "update_A1 [] old = old"
| "update_A1 (r # rs) [] = write_row r [] # update_A1 rs []"
| "update_A1 (r # rs) (old_r # old) = write_row r old_r # update_A1 rs old"

text \<open>\<open>[row[h] for h in headers]\<close>: \<open>None\<close> is the \<open>KeyError\<close> of a missing key.\<close>

definition row_values :: "ustr list \<Rightarrow> row \<Rightarrow> ustr list option" where
  "row_values headers row = those (map (map_of row) headers)"

text \<open>\<open>push_to_sheet\<close> returns the exception it raised, if any, and the spreadsheet as
  it is left.\<close>

definition push_to_sheet :: "spreadsheet \<Rightarrow> row list \<Rightarrow> error option \<times> spreadsheet" where
  "push_to_sheet spreadsheet rows =
     (if rows = [] then (Some ValueError, spreadsheet)
      else
        let headers = map fst (hd rows) in
        (case those (map (row_values headers) rows) of
           None \<Rightarrow> (Some KeyError, spreadsheet)
         | Some body \<Rightarrow>
             let data = headers # body;
                 ws = (case spreadsheet OUTPUT_WORKSHEET_NAME of
                         Some found \<Rightarrow> found
                       | None \<Rightarrow> \<lparr>ws_rows = length data + 20, ws_cols = length headers + 5,
                                   ws_values = []\<rparr>);
                 ws = ws\<lparr>ws_values := []\<rparr>;
                 ws = ws\<lparr>ws_rows := length data, ws_cols := length headers\<rparr>;
                 ws = ws\<lparr>ws_values := update_A1 data (ws_values ws)\<rparr>
             in (None, spreadsheet(OUTPUT_WORKSHEET_NAME \<mapsto> ws))))"

section \<open>Properties of the string operations\<close>

lemma lower_from_ascii:
  "list_all (\<lambda>c. c < 128) s \<Longrightarrow> lower_from db passed s = map ascii_lower s"
  by (induction s arbitrary: passed) auto

lemma py_lower_ascii:
  "list_all (\<lambda>c. c < 128) s \<Longrightarrow> py_lower db s = map ascii_lower s"
  by (simp add: py_lower_def lower_from_ascii)

lemma findall_class_all:
  "list_all (\<lambda>t. t \<noteq> [] \<and> list_all P t) (findall_class P s)"
proof (induction P s rule: findall_class.induct)
  case (1 P)
  show ?case by simp
next
  case (2 P c cs)
  show ?case
  proof (cases "P c")
    case True
    have "list_all P (takeWhile P cs)"
      by (simp add: list_all_iff) (meson set_takeWhileD)
    then show ?thesis using True 2(1)[OF True] by simp
  next
    case False
    then show ?thesis using 2(2)[OF False] by simp
  qed
qed

lemma token_char_ascii: "is_token_char c \<Longrightarrow> c < 128"
  by (auto simp: is_token_char_def is_ascii_upper_def is_ascii_lower_def is_ascii_digit_def)

lemma remdups_skip_later:
  "n \<in> set zs \<Longrightarrow> remdups (ys @ n # zs) = remdups (ys @ zs)"
  by (induction ys) auto

lemma first_seen_again:
  "n \<in> set kw \<Longrightarrow> rev (remdups (rev (kw @ n # xs))) = rev (remdups (rev (kw @ xs)))"
  by (simp add: remdups_skip_later)

lemma keywords_loop_first_seen:
  "distinct kw \<Longrightarrow> list_all (\<lambda>t. list_all (\<lambda>c. c < 128) t) tokens \<Longrightarrow>
   fst (keywords_loop db tokens (kw, set kw)) =
     rev (remdups (rev (kw @ filter (\<lambda>t. t \<notin> STOP_WORDS \<and> 3 \<le> length t)
       (map (map ascii_lower) tokens))))"
proof (induction tokens arbitrary: kw)
  case Nil
  then show ?case by (simp add: distinct_remdups_id)
next
  case (Cons t tokens)
  let ?n = "map ascii_lower t"
  have n: "py_lower db t = ?n" using Cons.prems(2) by (simp add: py_lower_ascii)
  let ?ok = "\<lambda>t. t \<notin> STOP_WORDS \<and> 3 \<le> length t"
  let ?xs = "filter ?ok (map (map ascii_lower) tokens)"
  have rest: "list_all (\<lambda>t. list_all (\<lambda>c. c < 128) t) tokens"
    using Cons.prems(2) by simp
  show ?case
  proof (cases "?ok ?n")
    case False
    have flt0: "filter ?ok (map (map ascii_lower) (t # tokens)) = ?xs"
      using False by simp
    have "fst (keywords_loop db (t # tokens) (kw, set kw)) =
        fst (keywords_loop db tokens (kw, set kw))"
      using n False by (auto simp: Let_def)
    also have "\<dots> = rev (remdups (rev (kw @ ?xs)))"
      by (rule Cons.IH[OF Cons.prems(1) rest])
    finally show ?thesis unfolding flt0 .
  next
    case True
    then have ok: "\<not> (?n \<in> STOP_WORDS \<or> length ?n \<le> 2)" by auto
    have flt: "filter ?ok (map (map ascii_lower) (t # tokens)) = ?n # ?xs"
      using True by simp
    show ?thesis
    proof (cases "?n \<in> set kw")
      case True
      have "fst (keywords_loop db (t # tokens) (kw, set kw)) =
          fst (keywords_loop db tokens (kw, set kw))"
        using n ok True by (simp add: Let_def)
      also have "\<dots> = rev (remdups (rev (kw @ ?xs)))"
        by (rule Cons.IH[OF Cons.prems(1) rest])
      also have "\<dots> = rev (remdups (rev (kw @ ?n # ?xs)))"
        by (rule first_seen_again[OF True, symmetric])
      finally show ?thesis unfolding flt .
    next
      case False
      have d: "distinct (kw @ [?n])" using Cons.prems(1) False by simp
      have "fst (keywords_loop db (t # tokens) (kw, set kw)) =
          fst (keywords_loop db tokens (kw @ [?n], set (kw @ [?n])))"
        using n ok False by (simp add: Let_def)
      also have "\<dots> = rev (remdups (rev ((kw @ [?n]) @ ?xs)))"
        by (rule Cons.IH[OF d rest])
      finally show ?thesis unfolding flt by simp
    qed
  qed
qed

lemma join_snoc:
  "join sep (xs @ [w]) = (if xs = [] then w else join sep xs @ sep @ w)"
  by (induction sep xs rule: join.induct) auto

lemma rstrip_where_length: "length (rstrip_where P s) \<le> length s"
  by (simp add: rstrip_where_def) (metis length_dropWhile_le length_rev)

lemma rstrip_where_last: "rstrip_where P s = [] \<or> \<not> P (last (rstrip_where P s))"
proof (cases "dropWhile P (rev s)")
  case Nil
  then show ?thesis by (simp add: rstrip_where_def)
next
  case (Cons a as)
  then have "\<not> P a" by (metis hd_dropWhile list.sel(1) list.distinct(1))
  then show ?thesis using Cons by (simp add: rstrip_where_def)
qed













lemmas string_eval = ascii_def py_strip_def strip_where_def lstrip_where_def rstrip_where_def
  is_space_def py_split_def is_trim_punct_def ELLIPSIS_def Let_def


section \<open>Properties of download\_images\_by\_product.py: slugs\<close>














section \<open>Properties of download\_images\_by\_product.py: folders\<close>

lemma py_str_nat_digit: "n < 10 \<Longrightarrow> py_str_nat n = [48 + n]"
  by (subst py_str_nat.simps) simp

lemma probe_folder_taken:
  "path_exists fs candidate \<Longrightarrow>
   probe_folder fs root_dir base_slug attempt candidate =
     probe_folder fs root_dir base_slug (attempt + 1)
       (root_dir @ [base_slug @ ascii ''-'' @ py_str_nat (attempt + 1)])"
  by (subst probe_folder.simps) simp

lemma probe_folder_free:
  "\<not> path_exists fs candidate \<Longrightarrow>
   probe_folder fs root_dir base_slug attempt candidate = candidate"
  by (subst probe_folder.simps) simp

lemma probe_folder_fresh:
  "\<not> path_exists fs (probe_folder fs root_dir base_slug attempt candidate)"
proof (induction fs root_dir base_slug attempt candidate rule: probe_folder.induct)
  case (1 fs root_dir base_slug attempt candidate)
  show ?case
  proof (cases "path_exists fs candidate")
    case True
    then show ?thesis using 1 by (simp add: probe_folder_taken)
  next
    case False
    then show ?thesis by (simp add: probe_folder_free)
  qed
qed

lemma probe_folder_first_free:
  "path_exists fs candidate \<Longrightarrow> attempt \<le> n \<Longrightarrow>
   (\<forall>k. attempt < k \<and> k \<le> n \<longrightarrow>
      path_exists fs (root_dir @ [base_slug @ ascii ''-'' @ py_str_nat k])) \<Longrightarrow>
   \<not> path_exists fs (root_dir @ [base_slug @ ascii ''-'' @ py_str_nat (n + 1)]) \<Longrightarrow>
   probe_folder fs root_dir base_slug attempt candidate =
     root_dir @ [base_slug @ ascii ''-'' @ py_str_nat (n + 1)]"
proof (induction "n - attempt" arbitrary: attempt candidate)
  case 0
  then have a: "attempt = n" by simp
  let ?next = "root_dir @ [base_slug @ ascii ''-'' @ py_str_nat (n + 1)]"
  have "probe_folder fs root_dir base_slug attempt candidate =
      probe_folder fs root_dir base_slug (n + 1) ?next"
    unfolding a using 0(2) by (rule probe_folder_taken)
  also have "\<dots> = ?next"
    using 0(5) by (rule probe_folder_free)
  finally show ?case .
next
  case (Suc d)
  let ?next = "root_dir @ [base_slug @ ascii ''-'' @ py_str_nat (attempt + 1)]"
  have lt: "attempt < n" using Suc(2) by simp
  have ex: "path_exists fs ?next" using Suc(5) lt by simp
  have "probe_folder fs root_dir base_slug attempt candidate =
      probe_folder fs root_dir base_slug (attempt + 1) ?next"
    using Suc(3) by (rule probe_folder_taken)
  also have "\<dots> = root_dir @ [base_slug @ ascii ''-'' @ py_str_nat (n + 1)]"
  proof (rule Suc(1))
    show "d = n - (attempt + 1)" using Suc(2) by simp
    show "path_exists fs ?next" by (rule ex)
    show "attempt + 1 \<le> n" using lt by simp
    show "\<forall>k. attempt + 1 < k \<and> k \<le> n \<longrightarrow>
        path_exists fs (root_dir @ [base_slug @ ascii ''-'' @ py_str_nat k])"
      using Suc(5) by simp
    show "\<not> path_exists fs (root_dir @ [base_slug @ ascii ''-'' @ py_str_nat (n + 1)])"
      by (rule Suc(6))
  qed
  finally show ?case .
qed


text \<open>
  Claim C3. \<open>ensure_unique_folder(root, base_slug)\<close> never returns a path that exists
  in the file system it is called on. It returns \<open>root/base_slug\<close> when that path does
  not exist. When \<open>n\<close> colliding folders exist, that is \<open>root/base_slug\<close> and the numbered
  paths \<open>root/base_slug-2\<close> up to \<open>root/base_slug-n\<close>, and \<open>root/base_slug-(n+1)\<close>
  does not exist, it returns \<open>root/base_slug-(n+1)\<close>.
\<close>

theorem ensure_unique_folder_first_unused:
  "\<not> path_exists fs (ensure_unique_folder fs root_dir base_slug)
   \<and> (\<not> path_exists fs (root_dir @ [base_slug]) \<longrightarrow>
        ensure_unique_folder fs root_dir base_slug = root_dir @ [base_slug])
   \<and> (1 \<le> n \<and> path_exists fs (root_dir @ [base_slug])
        \<and> (\<forall>k. 2 \<le> k \<and> k \<le> n \<longrightarrow>
              path_exists fs (root_dir @ [base_slug @ ascii ''-'' @ py_str_nat k]))
        \<and> \<not> path_exists fs (root_dir @ [base_slug @ ascii ''-'' @ py_str_nat (n + 1)]) \<longrightarrow>
        ensure_unique_folder fs root_dir base_slug =
          root_dir @ [base_slug @ ascii ''-'' @ py_str_nat (n + 1)])"
proof (intro conjI impI)
  show "\<not> path_exists fs (ensure_unique_folder fs root_dir base_slug)"
    unfolding ensure_unique_folder_def by (rule probe_folder_fresh)
next
  assume "\<not> path_exists fs (root_dir @ [base_slug])"
  then show "ensure_unique_folder fs root_dir base_slug = root_dir @ [base_slug]"
    unfolding ensure_unique_folder_def by (rule probe_folder_free)
next
  assume h: "1 \<le> n \<and> path_exists fs (root_dir @ [base_slug])
        \<and> (\<forall>k. 2 \<le> k \<and> k \<le> n \<longrightarrow>
              path_exists fs (root_dir @ [base_slug @ ascii ''-'' @ py_str_nat k]))
        \<and> \<not> path_exists fs (root_dir @ [base_slug @ ascii ''-'' @ py_str_nat (n + 1)])"
  then have numbered: "\<forall>k. 1 < k \<and> k \<le> n \<longrightarrow>
      path_exists fs (root_dir @ [base_slug @ ascii ''-'' @ py_str_nat k])"
    by (simp add: Suc_le_eq)
  show "ensure_unique_folder fs root_dir base_slug =
      root_dir @ [base_slug @ ascii ''-'' @ py_str_nat (n + 1)]"
    unfolding ensure_unique_folder_def
    using h numbered by (intro probe_folder_first_free) simp_all
qed

theorem ensure_unique_folder_first_unused_witness:
  "ensure_unique_folder
     [([ascii ''images'', ascii ''shirt''], Dir), ([ascii ''images'', ascii ''shirt-2''], Dir),
      ([ascii ''images'', ascii ''hat''], Dir), ([ascii ''images'', ascii ''hat-3''], Dir)]
     [ascii ''images''] (ascii ''shirt'') = [ascii ''images'', ascii ''shirt-3'']
   \<and> ensure_unique_folder
     [([ascii ''images'', ascii ''shirt''], Dir), ([ascii ''images'', ascii ''shirt-2''], Dir),
      ([ascii ''images'', ascii ''hat''], Dir), ([ascii ''images'', ascii ''hat-3''], Dir)]
     [ascii ''images''] (ascii ''hat'') = [ascii ''images'', ascii ''hat-2'']
   \<and> ensure_unique_folder
     [([ascii ''images'', ascii ''shirt''], Dir), ([ascii ''images'', ascii ''shirt-2''], Dir),
      ([ascii ''images'', ascii ''hat''], Dir), ([ascii ''images'', ascii ''hat-3''], Dir)]
     [ascii ''images''] (ascii ''mug'') = [ascii ''images'', ascii ''mug'']"
proof -
  let ?fs = "[([ascii ''images'', ascii ''shirt''], Dir), ([ascii ''images'', ascii ''shirt-2''], Dir),
      ([ascii ''images'', ascii ''hat''], Dir), ([ascii ''images'', ascii ''hat-3''], Dir)]"
  have two: "\<forall>k. 2 \<le> k \<and> k \<le> 2 \<longrightarrow>
      path_exists ?fs ([ascii ''images''] @ [ascii ''shirt'' @ ascii ''-'' @ py_str_nat k])"
  proof (intro allI impI)
    fix k :: nat assume "2 \<le> k \<and> k \<le> 2"
    then have "k = 2" by simp
    then show "path_exists ?fs ([ascii ''images''] @ [ascii ''shirt'' @ ascii ''-'' @ py_str_nat k])"
      by (simp add: path_exists_def py_str_nat_digit ascii_def)
  qed
  have none: "\<forall>k. 2 \<le> k \<and> k \<le> 1 \<longrightarrow>
      path_exists ?fs ([ascii ''images''] @ [ascii ''hat'' @ ascii ''-'' @ py_str_nat k])"
    by (intro allI impI) linarith
  have "ensure_unique_folder ?fs [ascii ''images''] (ascii ''shirt'') =
      [ascii ''images''] @ [ascii ''shirt'' @ ascii ''-'' @ py_str_nat (2 + 1)]"
    using ensure_unique_folder_first_unused[of ?fs "[ascii ''images'']" "ascii ''shirt''" 2] two
    by (simp add: path_exists_def py_str_nat_digit ascii_def)
  moreover have "ensure_unique_folder ?fs [ascii ''images''] (ascii ''hat'') =
      [ascii ''images''] @ [ascii ''hat'' @ ascii ''-'' @ py_str_nat (1 + 1)]"
    using ensure_unique_folder_first_unused[of ?fs "[ascii ''images'']" "ascii ''hat''" 1] none
    by (simp add: path_exists_def py_str_nat_digit ascii_def)
  moreover have "ensure_unique_folder ?fs [ascii ''images''] (ascii ''mug'') =
      [ascii ''images''] @ [ascii ''mug'']"
    using ensure_unique_folder_first_unused[of ?fs "[ascii ''images'']" "ascii ''mug''" 0]
    by (simp add: path_exists_def ascii_def)
  ultimately show ?thesis by (simp add: py_str_nat_digit ascii_def)
qed

section \<open>Properties of the float arithmetic\<close>



















section \<open>Properties of download\_images\_by\_product.py: images\<close>

























section \<open>Properties of download\_images\_by\_product.py: rows\<close>

text \<open>
  Claim C8. For every input line whose URL part (the text before the first tab, or the
  whole line when there is no tab) has no entry between semicolons that is non-empty after
  trimming, \<open>process_line\<close> returns normally, leaves the file system as it was (no folder
  is created) and prints the one warning; the loop of \<open>main\<close> then goes on with the
  following rows, under the next row number.
\<close>

theorem process_line_skips_row_without_urls:
  assumes "list_all (\<lambda>u. py_strip u = []) (split_on 59 (fst (split_line line idx)))"
  shows "process_line db w OUT_ROOT line idx st = Inr (st\<lparr>console := console st @ [No_urls idx]\<rparr>)
     \<and> (\<exists>st'. process_line db w OUT_ROOT line idx st = Inr st' \<and> files st' = files st)
     \<and> process_lines db w OUT_ROOT idx (line # lines) st =
         process_lines db w OUT_ROOT (idx + 1) lines (st\<lparr>console := console st @ [No_urls idx]\<rparr>)"
proof -
  have "filter (\<lambda>u. py_strip u \<noteq> []) (split_on 59 (fst (split_line line idx))) = []"
    using assms by (simp add: list_all_iff filter_empty_conv)
  then have "parse_urls (fst (split_line line idx)) = []"
    by (simp add: parse_urls_def)
  then have skip: "process_line db w OUT_ROOT line idx st =
      Inr (st\<lparr>console := console st @ [No_urls idx]\<rparr>)"
    by (simp add: process_line_def print_message_def Let_def)
  then have "process_lines db w OUT_ROOT idx (line # lines) st =
      process_lines db w OUT_ROOT (idx + 1) lines (st\<lparr>console := console st @ [No_urls idx]\<rparr>)"
    by simp
  then show ?thesis using skip by simp
qed

theorem process_line_skips_row_without_urls_witness:
  "list_all (\<lambda>u. py_strip u = [])
     (split_on 59 (fst (split_line (ascii '' ; ;'' @ [9] @ ascii ''Blue Cotton T-Shirt'') 4)))
   \<and> process_line latin1_db \<lparr>download_bytes = (\<lambda>url. None), open_image = (\<lambda>b. None)\<rparr>
       [ascii ''images'']
       (ascii '' ; ;'' @ [9] @ ascii ''Blue Cotton T-Shirt'') 4 \<lparr>files = [], console = []\<rparr> =
     Inr \<lparr>files = [], console = [No_urls 4]\<rparr>"
proof -
  have h: "list_all (\<lambda>u. py_strip u = [])
     (split_on 59 (fst (split_line (ascii '' ; ;'' @ [9] @ ascii ''Blue Cotton T-Shirt'') 4)))"
    by (simp add: split_line_def string_eval)
  show ?thesis
    using process_line_skips_row_without_urls[OF h, of latin1_db
        "\<lparr>download_bytes = (\<lambda>url. None), open_image = (\<lambda>b. None)\<rparr>" "[ascii ''images'']"
        "\<lparr>files = [], console = []\<rparr>" "[]"] h
    by simp
qed

section \<open>Properties of export\_product\_metadata.py\<close>

text \<open>
  Claim C6. For every title, brand and category, \<open>build_keywords\<close> joins with
  comma and space the list \<open>keywords[:15]\<close>; that list is the lowercased tokens of
  \<open>brand title category\<close> (the runs of ASCII letters, digits and apostrophes),
  without the stop words and the tokens shorter than 3 characters, each kept at its first
  occurrence only, cut after 15 entries. So it has at most 15 entries, no entry twice, no
  stop word, no entry shorter than 3, and only the characters a-z, 0-9 and the apostrophe.
  For \<open>build_keywords("Super Pack", "BrandX", "Tools")\<close> the result is
  \<open>brandx, super, tools\<close>: "pack" is dropped as a stop word.
\<close>

theorem build_keywords_first_seen_capped:
  "build_keywords db title brand category =
     join (ascii '', '') (keyword_list db title brand category)
   \<and> keyword_tokens title brand category =
     findall_class is_token_char (brand @ ascii '' '' @ title @ ascii '' '' @ category)
   \<and> list_all (\<lambda>t. t \<noteq> [] \<and> list_all is_token_char t) (keyword_tokens title brand category)
   \<and> keyword_list db title brand category =
     take 15 (rev (remdups (rev (filter (\<lambda>t. t \<notin> STOP_WORDS \<and> 3 \<le> length t)
       (map (map ascii_lower) (keyword_tokens title brand category))))))
   \<and> length (keyword_list db title brand category) \<le> 15
   \<and> distinct (keyword_list db title brand category)
   \<and> list_all (\<lambda>k. k \<notin> STOP_WORDS \<and> 3 \<le> length k
         \<and> list_all (\<lambda>c. is_ascii_lower c \<or> is_ascii_digit c \<or> c = 39) k)
       (keyword_list db title brand category)
   \<and> build_keywords db (ascii ''Super Pack'') (ascii ''BrandX'') (ascii ''Tools'') =
     ascii ''brandx, super, tools''"
proof -
  let ?tokens = "keyword_tokens title brand category"
  let ?ok = "\<lambda>t. t \<notin> STOP_WORDS \<and> 3 \<le> length t"
  let ?cands = "filter ?ok (map (map ascii_lower) ?tokens)"
  let ?kws = "keyword_list db title brand category"
  have toks: "list_all (\<lambda>t. t \<noteq> [] \<and> list_all is_token_char t) ?tokens"
    unfolding keyword_tokens_def by (rule findall_class_all)
  then have asc: "list_all (\<lambda>t. list_all (\<lambda>c. c < 128) t) ?tokens"
    by (auto simp: list_all_iff dest: token_char_ascii)
  have "fst (keywords_loop db ?tokens ([], set [])) = rev (remdups (rev ([] @ ?cands)))"
    by (rule keywords_loop_first_seen[OF _ asc]) simp
  then have kws: "?kws = take 15 (rev (remdups (rev ?cands)))"
    by (simp add: keyword_list_def py_take_def)
  have len: "length ?kws \<le> 15" unfolding kws by simp
  have dist: "distinct ?kws" unfolding kws by (rule distinct_take) simp
  have sub: "set ?kws \<subseteq> set ?cands"
    unfolding kws using set_take_subset[of 15 "rev (remdups (rev ?cands))"] by simp
  have chars: "list_all (\<lambda>c. is_ascii_lower c \<or> is_ascii_digit c \<or> c = 39) (map ascii_lower t)"
    if "list_all is_token_char t" for t
    using that
    by (auto simp: list_all_iff is_token_char_def ascii_lower_def is_ascii_lower_def
        is_ascii_upper_def is_ascii_digit_def)
  have each: "list_all (\<lambda>k. ?ok k \<and> list_all (\<lambda>c. is_ascii_lower c \<or> is_ascii_digit c \<or> c = 39) k) ?kws"
    unfolding list_all_iff
  proof
    fix k assume "k \<in> set ?kws"
    then have k: "k \<in> set ?cands" using sub by blast
    then obtain t where t: "t \<in> set ?tokens" "k = map ascii_lower t" by auto
    then have "list_all is_token_char t" using toks by (auto simp: list_all_iff)
    then have "list_all (\<lambda>c. is_ascii_lower c \<or> is_ascii_digit c \<or> c = 39) k"
      using chars t(2) by blast
    then show "?ok k \<and> (\<forall>c\<in>set k. is_ascii_lower c \<or> is_ascii_digit c \<or> c = 39)"
      using k by (simp add: list_all_iff)
  qed
  have ex: "build_keywords db (ascii ''Super Pack'') (ascii ''BrandX'') (ascii ''Tools'') =
     ascii ''brandx, super, tools''"
    by code_simp
  show ?thesis
    using toks kws len dist each ex by (simp add: build_keywords_def keyword_tokens_def)
qed

theorem build_keywords_first_seen_capped_witness:
  "keyword_list latin1_db (ascii ''Travel Set for the Dog and the Cat'') (ascii ''Dog's Own'')
       (ascii ''Pet Supplies: DOG'') =
     map ascii [''dog's'', ''own'', ''travel'', ''dog'', ''cat'', ''pet'', ''supplies'']
   \<and> build_keywords latin1_db (ascii ''Travel Set for the Dog and the Cat'') (ascii ''Dog's Own'')
       (ascii ''Pet Supplies: DOG'') =
     ascii ''dog's, own, travel, dog, cat, pet, supplies''"
proof -
  let ?kws = "keyword_list latin1_db (ascii ''Travel Set for the Dog and the Cat'')
       (ascii ''Dog's Own'') (ascii ''Pet Supplies: DOG'')"
  have k: "?kws = map ascii [''dog's'', ''own'', ''travel'', ''dog'', ''cat'', ''pet'', ''supplies'']"
    by code_simp
  have j: "join (ascii '', '')
      (map ascii [''dog's'', ''own'', ''travel'', ''dog'', ''cat'', ''pet'', ''supplies'']) =
     ascii ''dog's, own, travel, dog, cat, pet, supplies''"
    by code_simp
  have "build_keywords latin1_db (ascii ''Travel Set for the Dog and the Cat'')
       (ascii ''Dog's Own'') (ascii ''Pet Supplies: DOG'') = join (ascii '', '') ?kws"
    by (rule build_keywords_first_seen_capped[THEN conjunct1])
  then show ?thesis unfolding k j using k by blast
qed

lemma first_gender_find:
  "first_gender db lower kws =
     (case find (\<lambda>(token, gender). search_whole_word db token lower) kws of
        None \<Rightarrow> ascii ''Unisex'' | Some (token, gender) \<Rightarrow> gender)"
  by (induction kws) (auto split: prod.splits)

lemma word_boundary_before:
  assumes "token \<noteq> []" "is_word db (hd token)"
  shows "word_boundary db (pre @ token @ post) (length pre) = (pre = [] \<or> \<not> is_word db (last pre))"
proof (cases "pre = []")
  case True
  then show ?thesis using assms by (cases token) (auto simp: word_boundary_def)
next
  case False
  then have "(pre @ token @ post) ! (length pre - 1) = last pre"
    by (simp add: nth_append last_conv_nth)
  moreover have "(pre @ token @ post) ! length pre = hd token"
    using assms(1) by (cases token) (auto simp: nth_append)
  ultimately show ?thesis using False assms by (auto simp: word_boundary_def)
qed

lemma word_boundary_after:
  assumes "token \<noteq> []" "is_word db (last token)"
  shows "word_boundary db (pre @ token @ post) (length pre + length token) =
     (post = [] \<or> \<not> is_word db (hd post))"
proof -
  have prev: "(pre @ token @ post) ! (length pre + length token - 1) = last token"
  proof -
    have "length pre + length token - 1 = length pre + (length token - 1)"
      using assms(1) by (cases token) auto
    then show ?thesis using assms(1) by (simp add: nth_append last_conv_nth)
  qed
  show ?thesis
  proof (cases "post = []")
    case True
    then show ?thesis using assms prev by (auto simp: word_boundary_def)
  next
    case False
    then have "(pre @ token @ post) ! (length pre + length token) = hd post"
      by (cases post) (auto simp: nth_append)
    then show ?thesis using False assms prev by (auto simp: word_boundary_def)
  qed
qed

lemma search_whole_word_iff:
  assumes "token \<noteq> []" "is_word db (hd token)" "is_word db (last token)"
  shows "search_whole_word db token s = whole_word_in db token s"
proof
  assume "search_whole_word db token s"
  then obtain i where i: "i + length token \<le> length s" "take (length token) (drop i s) = token"
      "word_boundary db s i" "word_boundary db s (i + length token)"
    unfolding search_whole_word_def list_ex_iff by blast
  let ?pre = "take i s" and ?post = "drop (i + length token) s"
  have s: "s = ?pre @ token @ ?post"
    using i(2) by (metis append_take_drop_id drop_drop add.commute)
  have lp: "length ?pre = i" using i(1) by simp
  have "?pre = [] \<or> \<not> is_word db (last ?pre)"
    using word_boundary_before[OF assms(1,2), of ?pre ?post] i(3) s lp by simp
  moreover have "?post = [] \<or> \<not> is_word db (hd ?post)"
    using word_boundary_after[OF assms(1,3), of ?pre ?post] i(4) s lp by simp
  ultimately show "whole_word_in db token s"
    unfolding whole_word_in_def using s by blast
next
  assume "whole_word_in db token s"
  then obtain pre post where p: "s = pre @ token @ post"
      "pre = [] \<or> \<not> is_word db (last pre)" "post = [] \<or> \<not> is_word db (hd post)"
    unfolding whole_word_in_def by blast
  have "word_boundary db s (length pre)"
    using word_boundary_before[OF assms(1,2), of pre post] p by simp
  moreover have "word_boundary db s (length pre + length token)"
    using word_boundary_after[OF assms(1,3), of pre post] p by simp
  moreover have "take (length token) (drop (length pre) s) = token" using p(1) by simp
  moreover have "length pre + length token \<le> length s" using p(1) by simp
  moreover have "length pre \<in> set [0..<Suc (length s)]" using p(1) by simp
  ultimately show "search_whole_word db token s"
    unfolding search_whole_word_def list_ex_iff by blast
qed

lemma gender_keywords_are_words:
  "list_all (\<lambda>(token, gender). token \<noteq> [] \<and> is_word db (hd token) \<and> is_word db (last token))
     GENDER_KEYWORDS"
  by code_simp


text \<open>
  Claim C7. For every title, \<open>detect_gender\<close> returns the label of the first entry of
  \<open>GENDER_KEYWORDS\<close>, in list order, whose keyword the pattern \<open>\bkeyword\b\<close> finds in
  the lowercased title, and \<open>Unisex\<close> when it finds none. For each keyword of the list the
  pattern finds it in a text exactly when the keyword stands there as a whole word (no word
  character next to it on either side). \<open>Women's Running Shoes\<close> gives \<open>Women\<close>,
  \<open>Kids Backpack\<close> gives \<open>Unisex\<close> (through the keyword "kids"), and
  \<open>Wireless Mouse\<close> gives \<open>Unisex\<close> (no keyword).
\<close>

theorem detect_gender_first_keyword:
  "detect_gender db title =
     (case find (\<lambda>(token, gender). search_whole_word db token (py_lower db title)) GENDER_KEYWORDS of
        None \<Rightarrow> ascii ''Unisex''
      | Some (token, gender) \<Rightarrow> gender)
   \<and> list_all (\<lambda>(token, gender). search_whole_word db token s = whole_word_in db token s)
       GENDER_KEYWORDS
   \<and> detect_gender db (ascii ''Women's Running Shoes'') = ascii ''Women''
   \<and> detect_gender db (ascii ''Kids Backpack'') = ascii ''Unisex''
   \<and> find (\<lambda>(token, gender). search_whole_word db token (py_lower db (ascii ''Kids Backpack'')))
       GENDER_KEYWORDS = Some (ascii ''kids'', ascii ''Unisex'')
   \<and> detect_gender db (ascii ''Wireless Mouse'') = ascii ''Unisex''
   \<and> find (\<lambda>(token, gender). search_whole_word db token (py_lower db (ascii ''Wireless Mouse'')))
       GENDER_KEYWORDS = None"
proof -
  have first: "detect_gender db title =
     (case find (\<lambda>(token, gender). search_whole_word db token (py_lower db title)) GENDER_KEYWORDS of
        None \<Rightarrow> ascii ''Unisex''
      | Some (token, gender) \<Rightarrow> gender)"
    unfolding detect_gender_def by (rule first_gender_find)
  have whole: "list_all (\<lambda>(token, gender). search_whole_word db token s = whole_word_in db token s)
       GENDER_KEYWORDS"
    unfolding list_all_iff
  proof
    fix x assume x: "x \<in> set GENDER_KEYWORDS"
    obtain token gender where tg: "x = (token, gender)" by (cases x)
    have "token \<noteq> [] \<and> is_word db (hd token) \<and> is_word db (last token)"
      using gender_keywords_are_words[of db] x tg by (auto simp: list_all_iff)
    then have "search_whole_word db token s = whole_word_in db token s"
      by (simp add: search_whole_word_iff)
    then show "case x of (token, gender) \<Rightarrow>
        search_whole_word db token s = whole_word_in db token s"
      using tg by simp
  qed
  have e1: "detect_gender db (ascii ''Women's Running Shoes'') = ascii ''Women''"
    by code_simp
  have e2: "detect_gender db (ascii ''Kids Backpack'') = ascii ''Unisex''"
    by code_simp
  have e2': "find (\<lambda>(token, gender). search_whole_word db token (py_lower db (ascii ''Kids Backpack'')))
       GENDER_KEYWORDS = Some (ascii ''kids'', ascii ''Unisex'')"
    by code_simp
  have e3: "detect_gender db (ascii ''Wireless Mouse'') = ascii ''Unisex''"
    by code_simp
  have e3': "find (\<lambda>(token, gender). search_whole_word db token (py_lower db (ascii ''Wireless Mouse'')))
       GENDER_KEYWORDS = None"
    by code_simp
  from first whole e1 e2 e2' e3 e3' show ?thesis by blast
qed

theorem detect_gender_first_keyword_witness:
  "find (\<lambda>(token, gender). search_whole_word latin1_db token
        (py_lower latin1_db (ascii ''X-Men figurine for women''))) GENDER_KEYWORDS =
     Some (ascii ''women'', ascii ''Women'')
   \<and> detect_gender latin1_db (ascii ''X-Men figurine for women'') = ascii ''Women''"
proof -
  have f: "find (\<lambda>(token, gender). search_whole_word latin1_db token
        (py_lower latin1_db (ascii ''X-Men figurine for women''))) GENDER_KEYWORDS =
     Some (ascii ''women'', ascii ''Women'')"
    by code_simp
  have "detect_gender latin1_db (ascii ''X-Men figurine for women'') =
     (case find (\<lambda>(token, gender). search_whole_word latin1_db token
        (py_lower latin1_db (ascii ''X-Men figurine for women''))) GENDER_KEYWORDS of
        None \<Rightarrow> ascii ''Unisex''
      | Some (token, gender) \<Rightarrow> gender)"
    by (rule detect_gender_first_keyword[THEN conjunct1])
  then show ?thesis unfolding f by (simp add: f)
qed

lemma trim_loop_spec:
  "total_len = int (length (join (ascii '' '') trimmed)) \<Longrightarrow>
   \<exists>k\<le>length words. trim_loop limit words trimmed total_len = trimmed @ take k words
     \<and> (0 < k \<longrightarrow> int (length (join (ascii '' '') (trimmed @ take k words))) \<le> limit - 1)
     \<and> (k < length words \<longrightarrow>
          limit - 1 < int (length (join (ascii '' '') (trimmed @ take (Suc k) words))))"
proof (induction words arbitrary: trimmed total_len)
  case Nil
  then show ?case by simp
next
  case (Cons word words)
  let ?sp = "ascii '' ''"
  let ?extra = "if trimmed = [] then int (length word) else int (length word) + 1"
  have len: "int (length (join ?sp (trimmed @ [word]))) = total_len + ?extra"
    using Cons.prems by (simp add: join_snoc ascii_def)
  show ?case
  proof (cases "total_len + ?extra > limit - 1")
    case True
    then have "trim_loop limit (word # words) trimmed total_len = trimmed @ take 0 (word # words)"
      by (simp add: Let_def)
    moreover have "limit - 1 < int (length (join ?sp (trimmed @ take (Suc 0) (word # words))))"
      using True len by simp
    ultimately show ?thesis by (intro exI[of _ 0]) simp
  next
    case False
    then have step: "trim_loop limit (word # words) trimmed total_len =
        trim_loop limit words (trimmed @ [word]) (total_len + ?extra)"
      by (simp add: Let_def)
    obtain k where k: "k \<le> length words"
        "trim_loop limit words (trimmed @ [word]) (total_len + ?extra) = (trimmed @ [word]) @ take k words"
        "0 < k \<longrightarrow> int (length (join ?sp ((trimmed @ [word]) @ take k words))) \<le> limit - 1"
        "k < length words \<longrightarrow>
           limit - 1 < int (length (join ?sp ((trimmed @ [word]) @ take (Suc k) words)))"
      using Cons.IH[OF len[symmetric]] by blast
    have fit: "int (length (join ?sp (trimmed @ take (Suc k) (word # words)))) \<le> limit - 1"
    proof (cases "k = 0")
      case True
      then show ?thesis using False len by simp
    next
      case False
      then show ?thesis using k(3) by simp
    qed
    show ?thesis
      using k step fit by (intro exI[of _ "Suc k"]) simp
  qed
qed


text \<open>
  Claim C5, amended in the length bound (which needs a limit of at least 1). For every
  text and every limit, \<open>trim_to_length\<close> returns the whitespace-stripped text unchanged
  when its length is at most the limit. Otherwise the result is the first \<open>k\<close> words of
  the stripped text joined by single spaces, with trailing characters among \<open>,.;:-\<close>
  removed, followed by the ellipsis marker; \<open>k\<close> is the largest number of words whose
  joined length is at most \<open>limit - 1\<close> (possibly 0); what stands before the marker
  does not end with one of those punctuation characters; and when the limit is at least 1
  the result has at most \<open>limit\<close> characters.
\<close>

theorem trim_to_length_whole_words:
  "(int (length (py_strip text)) \<le> limit \<longrightarrow> trim_to_length text limit = py_strip text)
   \<and> (limit < int (length (py_strip text)) \<longrightarrow>
        (\<exists>k\<le>length (py_split (py_strip text)).
           trim_to_length text limit =
             rstrip_where is_trim_punct
               (join (ascii '' '') (take k (py_split (py_strip text)))) @ ELLIPSIS
           \<and> (0 < k \<longrightarrow>
                int (length (join (ascii '' '') (take k (py_split (py_strip text))))) \<le> limit - 1)
           \<and> (k < length (py_split (py_strip text)) \<longrightarrow>
                limit - 1 <
                  int (length (join (ascii '' '') (take (Suc k) (py_split (py_strip text)))))))
        \<and> (butlast (trim_to_length text limit) = []
             \<or> \<not> is_trim_punct (last (butlast (trim_to_length text limit))))
        \<and> (1 \<le> limit \<longrightarrow> int (length (trim_to_length text limit)) \<le> limit))"
proof (intro conjI impI)
  assume "int (length (py_strip text)) \<le> limit"
  then show "trim_to_length text limit = py_strip text"
    by (simp add: trim_to_length_def)
next
  let ?ws = "py_split (py_strip text)"
  let ?sp = "ascii '' ''"
  assume long: "limit < int (length (py_strip text))"
  obtain k where k: "k \<le> length ?ws" "trim_loop limit ?ws [] 0 = [] @ take k ?ws"
      "0 < k \<longrightarrow> int (length (join ?sp ([] @ take k ?ws))) \<le> limit - 1"
      "k < length ?ws \<longrightarrow> limit - 1 < int (length (join ?sp ([] @ take (Suc k) ?ws)))"
    using trim_loop_spec[of 0 "[]" ?ws limit] by auto
  have res: "trim_to_length text limit =
      rstrip_where is_trim_punct (join ?sp (take k ?ws)) @ ELLIPSIS"
    using long k(2) by (simp add: trim_to_length_def Let_def)
  show "\<exists>k\<le>length ?ws.
      trim_to_length text limit = rstrip_where is_trim_punct (join ?sp (take k ?ws)) @ ELLIPSIS
      \<and> (0 < k \<longrightarrow> int (length (join ?sp (take k ?ws))) \<le> limit - 1)
      \<and> (k < length ?ws \<longrightarrow> limit - 1 < int (length (join ?sp (take (Suc k) ?ws))))"
    using k(1,3,4) res by (intro exI[of _ k]) simp
  show "butlast (trim_to_length text limit) = []
      \<or> \<not> is_trim_punct (last (butlast (trim_to_length text limit)))"
    using rstrip_where_last[of is_trim_punct "join ?sp (take k ?ws)"]
    by (simp add: res ELLIPSIS_def)
  show "int (length (trim_to_length text limit)) \<le> limit" if one: "1 \<le> limit"
  proof (cases "k = 0")
    case True
    then show ?thesis using one by (simp add: res ELLIPSIS_def rstrip_where_def)
  next
    case False
    have "length (rstrip_where is_trim_punct (join ?sp (take k ?ws)))
        \<le> length (join ?sp (take k ?ws))"
      by (rule rstrip_where_length)
    then show ?thesis using False k(3) by (simp add: res ELLIPSIS_def)
  qed
qed

theorem trim_to_length_whole_words_witness:
  "8 < int (length (py_strip (ascii '' Hello, world wide '')))
   \<and> (1::int) \<le> 8
   \<and> trim_to_length (ascii '' Hello, world wide '') 8 = ascii ''Hello'' @ ELLIPSIS
   \<and> int (length (trim_to_length (ascii '' Hello, world wide '') 8)) \<le> 8"
proof -
  have long: "8 < int (length (py_strip (ascii '' Hello, world wide '')))"
    by (simp add: string_eval)
  have val: "trim_to_length (ascii '' Hello, world wide '') 8 = ascii ''Hello'' @ ELLIPSIS"
    by (simp add: trim_to_length_def string_eval)
  have "int (length (trim_to_length (ascii '' Hello, world wide '') 8)) \<le> 8"
    using trim_to_length_whole_words[of "ascii '' Hello, world wide ''" 8] long by simp
  then show ?thesis using long val by simp
qed

text \<open>Claim C5 as stated fails for a limit below 1: with limit 0 the text \<open>abc\<close> does
  not fit, and the result is the marker alone, one character long.\<close>

theorem trim_to_length_limit_zero_counterexample:
  "\<not> int (length (py_strip (ascii ''abc''))) \<le> 0
   \<and> trim_to_length (ascii ''abc'') 0 = ELLIPSIS
   \<and> \<not> int (length (trim_to_length (ascii ''abc'') 0)) \<le> 0"
  by (simp add: trim_to_length_def string_eval)

end
